theory Spec2Isabelle
  imports Main "HOL-Library.Word" "HOL-Library.Sublist"
begin

section \<open>JavaScript strings\<close>

text \<open>
  A JavaScript string is a sequence of 16-bit code units; \<open>length\<close>, \<open>indexOf\<close>,
  \<open>substring\<close>, \<open>trim\<close> and a regular expression without the \<open>u\<close> flag all work
  on code units. \<open>js\<close> writes an ASCII literal of the source as such a sequence.
\<close>

type_synonym jschar = "16 word"
type_synonym jsstring = "jschar list"

definition js :: "string \<Rightarrow> jsstring" where
  "js s = map (\<lambda>c. of_nat (of_char c)) s"

text \<open>
  The code units that \<open>String.prototype.trim\<close> removes and that \<open>\s\<close> matches:
  ECMAScript's WhiteSpace and LineTerminator.
\<close>

definition is_space :: "jschar \<Rightarrow> bool" where
  "is_space c \<longleftrightarrow>
     c = 0x09 \<or> c = 0x0A \<or> c = 0x0B \<or> c = 0x0C \<or> c = 0x0D \<or> c = 0x20 \<or> c = 0xA0 \<or>
     c = 0x1680 \<or> (0x2000 \<le> c \<and> c \<le> 0x200A) \<or> c = 0x2028 \<or> c = 0x2029 \<or>
     c = 0x202F \<or> c = 0x205F \<or> c = 0x3000 \<or> c = 0xFEFF"

text \<open>\<open>\w\<close> without the \<open>u\<close> flag: the 63 characters \<open>A-Z a-z 0-9 _\<close>, with or without \<open>i\<close>.\<close>

definition is_word :: "jschar \<Rightarrow> bool" where
  "is_word c \<longleftrightarrow>
     (0x41 \<le> c \<and> c \<le> 0x5A) \<or> (0x61 \<le> c \<and> c \<le> 0x7A) \<or> (0x30 \<le> c \<and> c \<le> 0x39) \<or> c = 0x5F"

definition trim :: "jsstring \<Rightarrow> jsstring" where
  "trim s = rev (dropWhile is_space (rev (dropWhile is_space s)))"

text \<open>\<open>s.substring(a, b)\<close>: both indices are clamped to the length and swapped when \<open>a > b\<close>.\<close>

definition substring :: "'a list \<Rightarrow> nat \<Rightarrow> nat \<Rightarrow> 'a list" where
  "substring s a b =
     (let a' = min a (length s); b' = min b (length s)
      in take (max a' b' - min a' b') (drop (min a' b') s))"

definition occurs_at :: "'a list \<Rightarrow> 'a list \<Rightarrow> nat \<Rightarrow> bool" where
  "occurs_at s pat i \<longleftrightarrow> take (length pat) (drop i s) = pat"

text \<open>
  \<open>s.indexOf(pat)\<close> and \<open>s.lastIndexOf(pat)\<close>: the first position, from the left and from
  the right, at which \<open>pat\<close> occurs, and \<open>-1\<close> when there is none.
\<close>

definition indexOf :: "'a list \<Rightarrow> 'a list \<Rightarrow> int" where
  "indexOf s pat =
     (case filter (occurs_at s pat) [0..<Suc (length s)] of [] \<Rightarrow> - 1 | i # _ \<Rightarrow> int i)"

definition lastIndexOf :: "'a list \<Rightarrow> 'a list \<Rightarrow> int" where
  "lastIndexOf s pat =
     (case filter (occurs_at s pat) (rev [0..<Suc (length s)]) of [] \<Rightarrow> - 1 | i # _ \<Rightarrow> int i)"

text \<open>The positions at which \<open>pat\<close> occurs in \<open>s\<close>, in increasing order.\<close>

definition occurrences :: "'a list \<Rightarrow> 'a list \<Rightarrow> nat list" where
  "occurrences s pat = filter (occurs_at s pat) [0..<Suc (length s)]"

text \<open>\<open>s.split(d)\<close> for a one-character separator: never empty, \<open>"".split(d) = [""]\<close>.\<close>

fun split :: "'a \<Rightarrow> 'a list \<Rightarrow> 'a list list" where
  "split d [] = [[]]"
| "split d (c # cs) =
     (if c = d then [] # split d cs
      else (case split d cs of [] \<Rightarrow> [[c]] | l # ls \<Rightarrow> (c # l) # ls))"

section \<open>The code-fence regular expressions\<close>

text \<open>
  \<open>parseResponse\<close> matches the trimmed reply against
  \<^verbatim>\<open>/^```(?:\w+)?\s*([\s\S]*?)\s*```$/i\<close> (in-place modes) or
  \<^verbatim>\<open>/^```(?:json)?\s*([\s\S]*?)\s*```$/i\<close> (create-note mode) and reads group 1.
  The matcher below is the backtracking search of such an expression, written out:
  every quantifier lists its candidate lengths in the order the engine tries them
  (a greedy one longest first, the lazy one shortest first) and \<open>first_some\<close> takes the
  first candidate for which the rest of the expression matches.
\<close>

definition fence :: jsstring where
  "fence = [0x60, 0x60, 0x60]"

fun first_some :: "('a \<Rightarrow> 'b option) \<Rightarrow> 'a list \<Rightarrow> 'b option" where
  "first_some f [] = None"
| "first_some f (x # xs) = (case f x of Some y \<Rightarrow> Some y | None \<Rightarrow> first_some f xs)"

definition greedy :: "nat \<Rightarrow> nat list" where
  "greedy k = rev [0..<Suc k]"

definition lazy :: "nat \<Rightarrow> nat list" where
  "lazy k = [0..<Suc k]"

text \<open>The tail \<^verbatim>\<open>\s*```$\<close>: a greedy run of white space, the fence, the end of the input.\<close>

definition closing :: "jsstring \<Rightarrow> bool" where
  "closing r \<longleftrightarrow>
     first_some (\<lambda>w. if drop w r = fence then Some w else None)
       (greedy (length (takeWhile is_space r))) \<noteq> None"

text \<open>
  \<^verbatim>\<open>(?:\w+)?\<close>: the group with a greedy run of word characters, longest first, then the
  group left out.
\<close>

definition word_tag :: "jsstring \<Rightarrow> nat list" where
  "word_tag r = greedy (length (takeWhile is_word r))"

text \<open>
  \<^verbatim>\<open>(?:json)?\<close> under the \<open>i\<close> flag: a code unit matches a letter of the pattern when both
  have the same canonical (upper-case) form; no code unit outside ASCII is canonicalised
  to an ASCII letter.
\<close>

definition canonicalize :: "jschar \<Rightarrow> jschar" where
  "canonicalize c = (if 0x61 \<le> c \<and> c \<le> 0x7A then c - 0x20 else c)"

definition json_tag :: "jsstring \<Rightarrow> nat list" where
  "json_tag r = (if map canonicalize (take 4 r) = js ''JSON'' then [4, 0] else [0])"

definition match_code_block :: "(jsstring \<Rightarrow> nat list) \<Rightarrow> jsstring \<Rightarrow> jsstring option" where
  "match_code_block tag text =
     (if take 3 text = fence then
        let r1 = drop 3 text in
        first_some (\<lambda>t. let r2 = drop t r1 in
          first_some (\<lambda>w. let r3 = drop w r2 in
            first_some (\<lambda>c. if closing (drop c r3) then Some (take c r3) else None)
              (lazy (length r3)))
            (greedy (length (takeWhile is_space r2))))
          (tag r1)
      else None)"

text \<open>
  What the search amounts to, for the statement of the in-place parse: a text is fenced
  when it opens with a fence and closes with another one, and \<open>unfence\<close> removes the
  opening fence with the word characters that follow it, and the closing fence.
\<close>

definition fenced :: "jsstring \<Rightarrow> bool" where
  "fenced t \<longleftrightarrow> take 3 t = fence \<and> 6 \<le> length t \<and> drop (length t - 3) t = fence"

definition unfence :: "jsstring \<Rightarrow> jsstring" where
  "unfence t = (let r = dropWhile is_word (drop 3 t) in take (length r - 3) r)"

section \<open>JSON values and the response parser\<close>

text \<open>
  The values \<open>JSON.parse\<close> returns. \<open>'n\<close> is the type of numbers, which the code never
  computes with. An object is the list of its own properties; \<open>undefined\<close> is \<open>None\<close>
  of a \<open>json option\<close>.
\<close>

datatype 'n json =
    JNull
  | JBool bool
  | JNumber 'n
  | JString jsstring
  | JArray "'n json list"
  | JObject "(jsstring \<times> 'n json) list"

text \<open>
  What the code takes from the JavaScript runtime: \<open>JSON.parse\<close> (\<open>None\<close> when it throws
  a SyntaxError), whether a number is truthy, and a number's \<open>ToString\<close>.
\<close>

record 'n runtime =
  JSON_parse :: "jsstring \<Rightarrow> 'n json option"
  number_truthy :: "'n \<Rightarrow> bool"
  number_toString :: "'n \<Rightarrow> jsstring"

fun truthy :: "'n runtime \<Rightarrow> 'n json \<Rightarrow> bool" where
  "truthy rt JNull = False"
| "truthy rt (JBool b) = b"
| "truthy rt (JNumber n) = number_truthy rt n"
| "truthy rt (JString s) = (s \<noteq> [])"
| "truthy rt (JArray xs) = True"
| "truthy rt (JObject kvs) = True"

text \<open>
  \<open>obj.key\<close> for the keys \<open>title\<close>, \<open>content\<close>, \<open>anchorLabel\<close>, \<open>candidates\<close>, \<open>parts\<close> and
  \<open>text\<close>: an own property of an object, and \<open>undefined\<close> on an array, a string, a number
  or a boolean, none of which has a property of these names.
\<close>

fun get_prop :: "'n json \<Rightarrow> jsstring \<Rightarrow> 'n json option" where
  "get_prop (JObject kvs) k = map_of kvs k"
| "get_prop v k = None"

text \<open>\<open>typeof v === 'string'\<close>, with the string.\<close>

fun string_value :: "'n json option \<Rightarrow> jsstring option" where
  "string_value (Some (JString s)) = Some s"
| "string_value v = None"

record 'n GenerationResponse =
  title :: jsstring
  content :: jsstring
  anchorLabel :: "'n json option"
  isFallback :: bool

definition isValidResponse :: "'n runtime \<Rightarrow> 'n json \<Rightarrow> bool" where
  "isValidResponse rt obj \<longleftrightarrow>
     truthy rt obj \<and>
     string_value (get_prop obj (js ''title'')) \<noteq> None \<and>
     string_value (get_prop obj (js ''content'')) \<noteq> None"

text \<open>
  One \<open>try\<close> block of \<open>parseResponse\<close>: \<open>JSON.parse\<close>, the validation, and the response
  built from the parsed value. \<open>None\<close> when the block falls through (a SyntaxError that
  the empty \<open>catch\<close> swallows, or a candidate that is not valid).
\<close>

definition try_structured :: "'n runtime \<Rightarrow> jsstring \<Rightarrow> 'n GenerationResponse option" where
  "try_structured rt text =
     (case JSON_parse rt text of
        None \<Rightarrow> None
      | Some parsed \<Rightarrow>
          if isValidResponse rt parsed then
            Some \<lparr>title = the (string_value (get_prop parsed (js ''title''))),
                  content = the (string_value (get_prop parsed (js ''content''))),
                  anchorLabel = get_prop parsed (js ''anchorLabel''),
                  isFallback = False\<rparr>
          else None)"

text \<open>Tier 1 parses \<open>cleanJson\<close>: the trimmed reply, without its \<open>json\<close> fence if it has one.\<close>

definition cleanJson :: "jsstring \<Rightarrow> jsstring" where
  "cleanJson rawResponse =
     (let textToParse = trim rawResponse in
      case match_code_block json_tag textToParse of
        Some m \<Rightarrow> trim m
      | None \<Rightarrow> textToParse)"

text \<open>Tier 2 parses \<open>jsonSubstring\<close>: from the first \<open>{\<close> to the last \<open>}\<close> of the raw reply.\<close>

definition jsonSubstring :: "jsstring \<Rightarrow> jsstring option" where
  "jsonSubstring rawResponse =
     (let firstBrace = indexOf rawResponse [0x7B];
          lastBrace = lastIndexOf rawResponse [0x7D]
      in if firstBrace \<noteq> - 1 \<and> lastBrace \<noteq> - 1 \<and> lastBrace > firstBrace
         then Some (substring rawResponse (nat firstBrace) (nat (lastBrace + 1)))
         else None)"

definition parseResponse :: "'n runtime \<Rightarrow> jsstring \<Rightarrow> bool \<Rightarrow> 'n GenerationResponse" where
  "parseResponse rt rawResponse expectJson =
     (let textToParse = trim rawResponse in
      if \<not> expectJson then
        \<lparr>title = [],
         content = (case match_code_block word_tag textToParse of
                      Some m \<Rightarrow> trim m
                    | None \<Rightarrow> textToParse),
         anchorLabel = None,
         isFallback = False\<rparr>
      else
        case try_structured rt (cleanJson rawResponse) of
          Some r \<Rightarrow> r
        | None \<Rightarrow>
            (case (case jsonSubstring rawResponse of
                     Some s \<Rightarrow> try_structured rt s
                   | None \<Rightarrow> None) of
               Some r \<Rightarrow> r
             | None \<Rightarrow>
                 \<lparr>title = js ''Untitled Gemini Note'',
                  content = rawResponse,
                  anchorLabel = None,
                  isFallback = True\<rparr>))"

text \<open>
  When a tier of the structured parse succeeds: \<open>JSON.parse\<close> returns a value and
  \<open>isValidResponse\<close> accepts it.
\<close>

definition structured_ok :: "'n runtime \<Rightarrow> jsstring \<Rightarrow> bool" where
  "structured_ok rt text \<longleftrightarrow>
     (case JSON_parse rt text of None \<Rightarrow> False | Some parsed \<Rightarrow> isValidResponse rt parsed)"

definition tier1_succeeds :: "'n runtime \<Rightarrow> jsstring \<Rightarrow> bool" where
  "tier1_succeeds rt rawResponse \<longleftrightarrow> structured_ok rt (cleanJson rawResponse)"

definition tier2_succeeds :: "'n runtime \<Rightarrow> jsstring \<Rightarrow> bool" where
  "tier2_succeeds rt rawResponse \<longleftrightarrow>
     (case jsonSubstring rawResponse of None \<Rightarrow> False | Some s \<Rightarrow> structured_ok rt s)"

section \<open>The transport\<close>

text \<open>
  The provider's answer is an input of the model: on the SDK path the call throws or
  returns a response whose \<open>text\<close> is a string or \<open>undefined\<close>; on the custom-host path
  \<open>requestUrl\<close> throws or returns a status and a body, whose \<open>json\<close> is \<open>None\<close> when
  reading it throws. The prompt and the URL only feed that call and are left out.
\<close>

datatype sdk_reply = SdkThrows | SdkResponse "jsstring option"

datatype 'n http_reply = RequestThrows | HttpResponse nat "'n json option"

datatype cause = HttpError nat | EmptyResponse | RequestError

datatype error = ApiKeyNotSet | GeminiSdkError | ApiRequestFailed cause | TypeError

text \<open>\<open>return response.text || ""\<close> inside the \<open>try\<close>; the \<open>catch\<close> rethrows.\<close>

definition generateWithSdk :: "sdk_reply \<Rightarrow> error + jsstring" where
  "generateWithSdk reply =
     (case reply of
        SdkThrows \<Rightarrow> Inl GeminiSdkError
      | SdkResponse text \<Rightarrow>
          Inr (case text of None \<Rightarrow> [] | Some s \<Rightarrow> if s \<noteq> [] then s else []))"

text \<open>\<open>x[0]\<close>: the first element of an array, the first code unit of a string, the
  property \<open>0\<close> of an object.\<close>

fun index0 :: "'n json \<Rightarrow> 'n json option" where
  "index0 (JArray xs) = (case xs of [] \<Rightarrow> None | x # _ \<Rightarrow> Some x)"
| "index0 (JString s) = (case s of [] \<Rightarrow> None | c # _ \<Rightarrow> Some (JString [c]))"
| "index0 (JObject kvs) = map_of kvs (js ''0'')"
| "index0 v = None"

text \<open>Optional chaining: \<open>x?.[0]\<close> and \<open>x?.key\<close> are \<open>undefined\<close> when \<open>x\<close> is \<open>undefined\<close> or \<open>null\<close>.\<close>

fun opt_index0 :: "'n json option \<Rightarrow> 'n json option" where
  "opt_index0 None = None"
| "opt_index0 (Some JNull) = None"
| "opt_index0 (Some v) = index0 v"

fun opt_prop :: "'n json option \<Rightarrow> jsstring \<Rightarrow> 'n json option" where
  "opt_prop None k = None"
| "opt_prop (Some JNull) k = None"
| "opt_prop (Some v) k = get_prop v k"

text \<open>
  \<open>generateWithCustomHost\<close>: a status of 400 or more, a body without
  \<open>candidates[0].content.parts[0].text\<close> or with a falsy one, and anything thrown on the
  way (reading the \<open>json\<close> of a body that has none, also for the message of the status
  error; \<open>data.candidates\<close> on \<open>null\<close>, a TypeError) end in the rethrown error. The
  value returned is the extracted \<open>text\<close>, whatever its type.
\<close>

definition generateWithCustomHost :: "'n runtime \<Rightarrow> 'n http_reply \<Rightarrow> error + 'n json" where
  "generateWithCustomHost rt reply =
     (case reply of
        RequestThrows \<Rightarrow> Inl (ApiRequestFailed RequestError)
      | HttpResponse status body \<Rightarrow>
          if status \<ge> 400 then
            (case body of
               None \<Rightarrow> Inl (ApiRequestFailed RequestError)
             | Some _ \<Rightarrow> Inl (ApiRequestFailed (HttpError status)))
          else (case body of
                  None \<Rightarrow> Inl (ApiRequestFailed RequestError)
                | Some JNull \<Rightarrow> Inl (ApiRequestFailed RequestError)
                | Some data \<Rightarrow>
                    (case opt_prop (opt_index0 (opt_prop (opt_prop (opt_index0
                             (get_prop data (js ''candidates''))) (js ''content''))
                             (js ''parts''))) (js ''text'') of
                       None \<Rightarrow> Inl (ApiRequestFailed EmptyResponse)
                     | Some text \<Rightarrow>
                         if \<not> truthy rt text then Inl (ApiRequestFailed EmptyResponse)
                         else Inr text)))"

datatype OutputAction = create_note | replace_selection | insert_after

text \<open>
  Of a \<open>GenerationRequest\<close> the model keeps the fields read after the prompt is built;
  the others (instruction, context windows, parent note, background) only feed the prompt.
\<close>

record GenerationRequest =
  saveLocation :: jsstring
  selectedText :: jsstring
  outputAction :: OutputAction

record GeminiService =
  apiKey :: jsstring
  apiHost :: jsstring
  modelName :: jsstring
  createNoteMetaPrompt :: jsstring
  inPlaceMetaPrompt :: jsstring

record 'n provider =
  on_sdk :: sdk_reply
  on_host :: "'n http_reply"

text \<open>
  \<open>generateNote\<close>: the key check, the choice of the path by \<open>apiHost\<close>, and
  \<open>parseResponse\<close>, whose \<open>rawResponse.trim()\<close> is a TypeError on a value that is not a
  string.
\<close>

definition generateNote ::
  "'n runtime \<Rightarrow> GeminiService \<Rightarrow> GenerationRequest \<Rightarrow> 'n provider \<Rightarrow> error + 'n GenerationResponse"
where
  "generateNote rt service request provider =
     (if apiKey service = [] then Inl ApiKeyNotSet
      else
        let isCreateNote = (outputAction request = create_note);
            responseText =
              (if apiHost service \<noteq> [] \<and> trim (apiHost service) \<noteq> []
               then generateWithCustomHost rt (on_host provider)
               else (case generateWithSdk (on_sdk provider) of
                       Inl e \<Rightarrow> Inl e
                     | Inr s \<Rightarrow> Inr (JString s)))
        in case responseText of
             Inl e \<Rightarrow> Inl e
           | Inr (JString s) \<Rightarrow> Inr (parseResponse rt s isCreateNote)
           | Inr _ \<Rightarrow> Inl TypeError)"

section \<open>The host: editor, vault, clipboard, notices\<close>

text \<open>
  Modelled from the spec: the host's document and editor API is not part of the
  repository. The spec asks of it: the current selection text, the whole document text,
  setting a line-and-column range as the selection, replacing the selection in one edit,
  and creating and looking up documents and folders by path. The state below is the
  document text with one selection (two offsets), the vault as a map from paths to
  entries, the last text written to the clipboard and the notices shown so far. The
  notice of a created note carries its path; the progress notice, hidden again on every
  path, is left out.
\<close>

datatype entry = File jsstring | Folder

datatype notice =
    ApiKeyMissing
  | SelectionChanged
  | Replaced
  | Inserted
  | Failed
  | Unstructured
  | Created jsstring
  | AlreadyExists jsstring

record host =
  doc :: jsstring
  sel_from :: nat
  sel_to :: nat
  vault :: "jsstring \<rightharpoonup> entry"
  clipboard :: "jsstring option"
  notices :: "notice list"

definition getValue :: "host \<Rightarrow> jsstring" where
  "getValue h = doc h"

definition getSelection :: "host \<Rightarrow> jsstring" where
  "getSelection h = take (sel_to h - sel_from h) (drop (sel_from h) (doc h))"

text \<open>
  The offset of a line-and-column position: lines end at \<open>\n\<close>, a column past the end
  of its line stops there, a line past the last one is the end of the document.
\<close>

fun posToOffset :: "jsstring \<Rightarrow> nat \<Rightarrow> nat \<Rightarrow> nat" where
  "posToOffset [] line ch = 0"
| "posToOffset (c # cs) 0 ch =
     (if ch = 0 \<or> c = 0x0A then 0 else Suc (posToOffset cs 0 (ch - 1)))"
| "posToOffset (c # cs) (Suc line) ch =
     Suc (if c = 0x0A then posToOffset cs line ch else posToOffset cs (Suc line) ch)"

definition setSelection :: "nat \<times> nat \<Rightarrow> nat \<times> nat \<Rightarrow> host \<Rightarrow> host" where
  "setSelection anchor head h =
     (let a = posToOffset (doc h) (fst anchor) (snd anchor);
          b = posToOffset (doc h) (fst head) (snd head)
      in h\<lparr>sel_from := min a b, sel_to := max a b\<rparr>)"

text \<open>One edit: the selected range becomes \<open>text\<close>, and the cursor stands after it.\<close>

definition replaceSelection :: "jsstring \<Rightarrow> host \<Rightarrow> host" where
  "replaceSelection text h =
     h\<lparr>doc := take (sel_from h) (doc h) @ text @ drop (sel_to h) (doc h),
       sel_from := sel_from h + length text,
       sel_to := sel_from h + length text\<rparr>"

definition notify :: "notice \<Rightarrow> host \<Rightarrow> host" where
  "notify n h = h\<lparr>notices := notices h @ [n]\<rparr>"

definition writeClipboard :: "jsstring \<Rightarrow> host \<Rightarrow> host" where
  "writeClipboard text h = h\<lparr>clipboard := Some text\<rparr>"

definition createFolder :: "jsstring \<Rightarrow> host \<Rightarrow> host" where
  "createFolder path h = h\<lparr>vault := (vault h)(path \<mapsto> Folder)\<rparr>"

definition create :: "jsstring \<Rightarrow> jsstring \<Rightarrow> host \<Rightarrow> host" where
  "create path data h = h\<lparr>vault := (vault h)(path \<mapsto> File data)\<rparr>"

text \<open>The source file of the command: its path, its base name and its folder's path.\<close>

record TFile =
  path :: jsstring
  basename :: jsstring
  parent_path :: "jsstring option"

section \<open>The orchestrator\<close>

text \<open>
  The verification step of \<open>runGeneration\<close>, run on the host as it is when the reply
  arrives: the comparison of the live selection with the snapshot first, the scan of the
  document only when they differ. It returns \<open>safeToReplace\<close> and the host, whose
  selection is moved when the snapshot occurs once.
\<close>

definition reconcile :: "jsstring \<Rightarrow> host \<Rightarrow> bool \<times> host" where
  "reconcile snapshotText h =
     (let currentSelection = getSelection h in
      if currentSelection = snapshotText then (True, h)
      else
        let docContent = getValue h;
            firstIndex = indexOf docContent snapshotText;
            lastIndex = lastIndexOf docContent snapshotText
        in if firstIndex \<noteq> - 1 \<and> firstIndex = lastIndex then
             let prefix = substring docContent 0 (nat firstIndex);
                 lines = split 0x0A prefix;
                 line = length lines - 1;
                 ch = length (last lines);
                 endPrefix = substring docContent 0 (nat firstIndex + length snapshotText);
                 endLines = split 0x0A endPrefix;
                 endLine = length endLines - 1;
                 endCh = length (last endLines)
             in (True, setSelection (line, ch) (endLine, endCh) h)
           else (False, h))"

text \<open>
  \<open>ToString\<close>, which a template literal applies to a value. On an object it reads the
  property \<open>toString\<close>: without an own key of that name this is
  \<open>Object.prototype.toString\<close> and the result is \<open>[object Object]\<close>; an own key holds a
  JSON value, which is not callable, and after \<open>valueOf\<close> (not callable either, or
  returning the object itself) the conversion throws a TypeError. An array is converted
  by \<open>Array.prototype.join\<close> with a comma: \<open>null\<close> elements give the empty string, the
  others are converted in turn, and the first one that throws ends the conversion.
\<close>

fun toString :: "'n runtime \<Rightarrow> 'n json \<Rightarrow> error + jsstring"
  and join :: "'n runtime \<Rightarrow> 'n json list \<Rightarrow> error + jsstring"
where
  "toString rt JNull = Inr (js ''null'')"
| "toString rt (JBool b) = Inr (if b then js ''true'' else js ''false'')"
| "toString rt (JNumber n) = Inr (number_toString rt n)"
| "toString rt (JString s) = Inr s"
| "toString rt (JArray xs) = join rt xs"
| "toString rt (JObject kvs) =
     (if map_of kvs (js ''toString'') = None then Inr (js ''[object Object]'')
      else Inl TypeError)"
| "join rt [] = Inr []"
| "join rt [x] = (if x = JNull then Inr [] else toString rt x)"
| "join rt (x # y # ys) =
     (case (if x = JNull then Inr [] else toString rt x) of
        Inl e \<Rightarrow> Inl e
      | Inr s \<Rightarrow>
          (case join rt (y # ys) of
             Inl e \<Rightarrow> Inl e
           | Inr r \<Rightarrow> Inr (s @ js '','' @ r)))"

text \<open>The characters \<open>createNoteFile\<close> removes from a title: \<^verbatim>\<open>/[\\/:*?"<>|]/g\<close>.\<close>

definition illegal :: "jschar \<Rightarrow> bool" where
  "illegal c \<longleftrightarrow>
     c = 0x5C \<or> c = 0x2F \<or> c = 0x3A \<or> c = 0x2A \<or> c = 0x3F \<or> c = 0x22 \<or> c = 0x3C \<or>
     c = 0x3E \<or> c = 0x7C"

definition safeTitle :: "jsstring \<Rightarrow> jsstring" where
  "safeTitle t = trim (filter (\<lambda>c. \<not> illegal c) t)"

text \<open>
  \<open>createNoteFile\<close>. \<open>normalizePath\<close> is the host's and is a parameter. The result is the
  new file's path, or \<open>None\<close> for \<open>null\<close>.
\<close>

definition targetFolder :: "(jsstring \<Rightarrow> jsstring) \<Rightarrow> GenerationRequest \<Rightarrow> TFile \<Rightarrow> jsstring" where
  "targetFolder normalizePath request parentFile =
     (if saveLocation request \<noteq> [] then normalizePath (saveLocation request)
      else (case parent_path parentFile of None \<Rightarrow> [] | Some p \<Rightarrow> p))"

definition targetPath ::
  "(jsstring \<Rightarrow> jsstring) \<Rightarrow> 'n GenerationResponse \<Rightarrow> GenerationRequest \<Rightarrow> TFile \<Rightarrow> jsstring"
where
  "targetPath normalizePath response request parentFile =
     normalizePath (targetFolder normalizePath request parentFile @ js ''/'' @
                    safeTitle (title response) @ js ''.md'')"

text \<open>The backlink line that opens a created note.\<close>

definition parentLink :: "TFile \<Rightarrow> jsstring" where
  "parentLink parentFile =
     js ''Generated from: [['' @ path parentFile @ js ''|'' @ basename parentFile @ js '']]'' @
     [0x0A, 0x0A] @ js ''---'' @ [0x0A, 0x0A]"

definition createNoteFile ::
  "(jsstring \<Rightarrow> jsstring) \<Rightarrow> 'n GenerationResponse \<Rightarrow> GenerationRequest \<Rightarrow> TFile \<Rightarrow> host \<Rightarrow>
   jsstring option \<times> host"
where
  "createNoteFile normalizePath response request parentFile h =
     (let folder = targetFolder normalizePath request parentFile;
          h1 = (if saveLocation request \<noteq> [] \<and> vault h folder = None
                then createFolder folder h else h);
          target = targetPath normalizePath response request parentFile
      in if vault h1 target \<noteq> None then (None, notify (AlreadyExists target) h1)
         else
           let fullContent = parentLink parentFile @ content response
           in (Some target, create target fullContent h1))"

text \<open>
  The label of the inserted link:
  \<open>response.anchorLabel && response.anchorLabel.trim() !== "" ? response.anchorLabel
  : request.selectedText\<close>. On a truthy value that is not a string, \<open>trim\<close> is
  not a function and the call throws.
\<close>

definition linkLabel :: "'n runtime \<Rightarrow> 'n GenerationResponse \<Rightarrow> GenerationRequest \<Rightarrow> error + jsstring" where
  "linkLabel rt response request =
     (case anchorLabel response of
        None \<Rightarrow> Inr (selectedText request)
      | Some v \<Rightarrow>
          if \<not> truthy rt v then Inr (selectedText request)
          else (case v of
                  JString s \<Rightarrow> Inr (if trim s \<noteq> [] then s else selectedText request)
                | _ \<Rightarrow> Inl TypeError))"

text \<open>
  \<open>handleCreateNoteAction\<close>: the error, if the call throws, and the host as the call
  leaves it.
\<close>

definition handleCreateNoteAction ::
  "'n runtime \<Rightarrow> (jsstring \<Rightarrow> jsstring) \<Rightarrow> 'n GenerationResponse \<Rightarrow> GenerationRequest \<Rightarrow> TFile \<Rightarrow>
   host \<Rightarrow> error option \<times> host"
where
  "handleCreateNoteAction rt normalizePath response request parentFile h =
     (case createNoteFile normalizePath response request parentFile h of
        (None, h1) \<Rightarrow> (None, h1)
      | (Some newFile, h1) \<Rightarrow>
          (case linkLabel rt response request of
             Inl e \<Rightarrow> (Some e, h1)
           | Inr label \<Rightarrow>
               let linkText = js ''[['' @ newFile @ js ''|'' @ label @ js '']]'';
                   h2 = replaceSelection linkText h1
               in (None, notify (if isFallback response then Unstructured else Created newFile) h2)))"

text \<open>
  The link copied to the clipboard when the selection cannot be found again:
  \<open>response.anchorLabel ? `[[${response.title}|${response.anchorLabel}]]`
  : `[[${response.title}|${snapshotText}]]`\<close>. The template literal converts a truthy
  label to a string, and throws when that conversion does.
\<close>

definition clipboardLink :: "'n runtime \<Rightarrow> 'n GenerationResponse \<Rightarrow> jsstring \<Rightarrow> error + jsstring" where
  "clipboardLink rt response snapshotText =
     (case anchorLabel response of
        None \<Rightarrow> Inr (js ''[['' @ title response @ js ''|'' @ snapshotText @ js '']]'')
      | Some v \<Rightarrow>
          if truthy rt v then
            (case toString rt v of
               Inl e \<Rightarrow> Inl e
             | Inr s \<Rightarrow> Inr (js ''[['' @ title response @ js ''|'' @ s @ js '']]''))
          else Inr (js ''[['' @ title response @ js ''|'' @ snapshotText @ js '']]''))"

text \<open>
  The body of the \<open>try\<close> of \<open>runGeneration\<close> from the reply on: verification, then the
  clipboard diversion or the action. \<open>h\<close> is the host when the reply arrives: the
  document and the selection may have changed since the request was made. The result is
  the error, if the body throws, and the host as it is then: on the diversion of a
  create-note run the link text is built, and may throw, after the warning is shown and
  before the note is created and the clipboard written.
\<close>

definition applyResponse ::
  "'n runtime \<Rightarrow> (jsstring \<Rightarrow> jsstring) \<Rightarrow> GenerationRequest \<Rightarrow> TFile \<Rightarrow> 'n GenerationResponse \<Rightarrow>
   host \<Rightarrow> error option \<times> host"
where
  "applyResponse rt normalizePath request parentFile response h =
     (let snapshotText = selectedText request;
          (safeToReplace, h1) = reconcile snapshotText h
      in if \<not> safeToReplace then
           let h2 = notify SelectionChanged h1 in
           if outputAction request = create_note then
             (case clipboardLink rt response snapshotText of
                Inl e \<Rightarrow> (Some e, h2)
              | Inr clipboardText \<Rightarrow>
                  let (newFile, h3) = createNoteFile normalizePath response request parentFile h2
                  in (None, writeClipboard clipboardText h3))
           else (None, writeClipboard (content response) h2)
         else if outputAction request = create_note then
           handleCreateNoteAction rt normalizePath response request parentFile h1
         else if outputAction request = replace_selection then
           (None, notify Replaced (replaceSelection (content response) h1))
         else
           (None, notify Inserted
              (replaceSelection (snapshotText @ [0x0A, 0x0A] @ content response) h1)))"

text \<open>
  \<open>runGeneration\<close>: the key check, the call, and the \<open>catch\<close> that turns every error of
  the \<open>try\<close> into the failure notice.
\<close>

definition runGeneration ::
  "'n runtime \<Rightarrow> (jsstring \<Rightarrow> jsstring) \<Rightarrow> GeminiService \<Rightarrow> GenerationRequest \<Rightarrow> TFile \<Rightarrow>
   'n provider \<Rightarrow> host \<Rightarrow> host"
where
  "runGeneration rt normalizePath settings request parentFile provider h =
     (if apiKey settings = [] then notify ApiKeyMissing h
      else (case generateNote rt settings request provider of
              Inl e \<Rightarrow> notify Failed h
            | Inr response \<Rightarrow>
                (case applyResponse rt normalizePath request parentFile response h of
                   (Some e, h') \<Rightarrow> notify Failed h'
                 | (None, h') \<Rightarrow> h')))"

text \<open>
  The code units of a path that are neither removed from a title nor white space; the
  host's path normaliser (slashes, non-breaking spaces) is expected to keep their number.
\<close>

definition visible :: "jschar \<Rightarrow> bool" where
  "visible c \<longleftrightarrow> \<not> illegal c \<and> \<not> is_space c"

definition count_visible :: "jsstring \<Rightarrow> nat" where
  "count_visible s = length (filter visible s)"

section \<open>A runtime and a host for the examples\<close>

text \<open>
  \<open>sample_runtime\<close> is \<open>JSON.parse\<close> on the three texts listed (no example parses any
  other text that is valid JSON), with the numbers 0 to 9. \<open>sample_normalizePath\<close> removes
  leading slashes, as the host does; the paths of the examples need nothing else.
\<close>

definition sample_runtime :: "nat runtime" where
  "sample_runtime =
     \<lparr>JSON_parse = map_of
        [(js ''{\"title\":\"T\",\"content\":\"C\",\"anchorLabel\":5}'',
          JObject [(js ''title'', JString (js ''T'')), (js ''content'', JString (js ''C'')),
                   (js ''anchorLabel'', JNumber 5)]),
         (js ''{\"title\":\"\",\"content\":\"\"}'',
          JObject [(js ''title'', JString []), (js ''content'', JString [])]),
         (js ''{\"title\":\"T\",\"content\":\"new\",\"anchorLabel\":{\"toString\":1}}'',
          JObject [(js ''title'', JString (js ''T'')), (js ''content'', JString (js ''new'')),
                   (js ''anchorLabel'', JObject [(js ''toString'', JNumber 1)])])],
      number_truthy = (\<lambda>n. n \<noteq> 0),
      number_toString = (\<lambda>n. [of_nat (48 + n)])\<rparr>"

definition sample_normalizePath :: "jsstring \<Rightarrow> jsstring" where
  "sample_normalizePath p = dropWhile (\<lambda>c. c = 0x2F) p"

definition sample_file :: TFile where
  "sample_file = \<lparr>path = js ''notes/day.md'', basename = js ''day'', parent_path = Some (js ''notes'')\<rparr>"

definition sample_response :: "nat GenerationResponse" where
  "sample_response = \<lparr>title = js ''T'', content = js ''new'', anchorLabel = None, isFallback = False\<rparr>"

definition sample_request :: "OutputAction \<Rightarrow> GenerationRequest" where
  "sample_request action = \<lparr>saveLocation = [], selectedText = js ''foo'', outputAction = action\<rparr>"

text \<open>A host whose document is \<open>d\<close>, with the selection from \<open>a\<close> to \<open>b\<close> and the files \<open>fs\<close>.\<close>

definition sample_host :: "jsstring \<Rightarrow> nat \<Rightarrow> nat \<Rightarrow> (jsstring \<times> entry) list \<Rightarrow> host" where
  "sample_host d a b fs =
     \<lparr>doc = d, sel_from = a, sel_to = b, vault = map_of fs, clipboard = None, notices = []\<rparr>"

text \<open>A response whose label cannot be converted to a string, and a service on the SDK path.\<close>

definition sample_unconvertible :: "nat GenerationResponse" where
  "sample_unconvertible =
     \<lparr>title = js ''T'', content = js ''new'',
      anchorLabel = Some (JObject [(js ''toString'', JNumber 1)]), isFallback = False\<rparr>"

definition sample_service :: GeminiService where
  "sample_service =
     \<lparr>apiKey = js ''k'', apiHost = [], modelName = js ''m'', createNoteMetaPrompt = [],
      inPlaceMetaPrompt = []\<rparr>"

section \<open>The response parser: lemmas\<close>

lemma try_structured_None: "try_structured rt text = None \<longleftrightarrow> \<not> structured_ok rt text"
  by (simp add: try_structured_def structured_ok_def split: option.splits)

lemma try_structured_not_fallback: "try_structured rt text = Some r \<Longrightarrow> \<not> isFallback r"
  by (auto simp: try_structured_def split: option.splits if_splits)

lemma first_some_SomeD: "first_some f xs = Some y \<Longrightarrow> \<exists>x \<in> set xs. f x = Some y"
  by (induction xs) (auto split: option.splits)

lemma set_greedy: "set (greedy k) = {0..k}"
  by (auto simp: greedy_def)

lemma set_lazy: "set (lazy k) = {0..k}"
  by (auto simp: lazy_def)

lemma take_takeWhile_all: "n \<le> length (takeWhile P xs) \<Longrightarrow> list_all P (take n xs)"
proof -
  assume n: "n \<le> length (takeWhile P xs)"
  have "take n (takeWhile P xs @ dropWhile P xs) = take n (takeWhile P xs)"
    using n by (simp del: takeWhile_dropWhile_id)
  then have "take n xs = take n (takeWhile P xs)" by simp
  then have "set (take n xs) \<subseteq> set (takeWhile P xs)" by (simp add: set_take_subset)
  then show ?thesis by (auto simp: list_all_iff dest: set_takeWhileD)
qed

lemma closingD: "closing r \<Longrightarrow> \<exists>ws. r = ws @ fence \<and> list_all is_space ws"
proof -
  assume "closing r"
  then obtain w where w: "w \<le> length (takeWhile is_space r)" "drop w r = fence"
    by (auto simp: closing_def set_greedy dest!: first_some_SomeD split: if_splits)
  have "r = take w r @ fence" using w(2) by (metis append_take_drop_id)
  with w(1) show ?thesis using take_takeWhile_all by blast
qed

text \<open>
  Whatever the search returns as group 1 stands in the text between the opening fence
  with a tag of one of the candidate lengths and the closing fence, with white space on
  both sides.
\<close>

lemma match_code_blockD:
  assumes "match_code_block tag text = Some m"
  shows "\<exists>n ws1 ws2. n \<in> set (tag (drop 3 text)) \<and>
           text = fence @ take n (drop 3 text) @ ws1 @ m @ ws2 @ fence \<and>
           list_all is_space ws1 \<and> list_all is_space ws2"
proof -
  let ?r1 = "drop 3 text"
  from assms have pre: "take 3 text = fence"
    by (simp add: match_code_block_def split: if_splits)
  from assms pre have "first_some (\<lambda>t.
          first_some (\<lambda>w.
            first_some (\<lambda>c. if closing (drop c (drop w (drop t ?r1)))
                                then Some (take c (drop w (drop t ?r1))) else None)
              (lazy (length (drop w (drop t ?r1)))))
            (greedy (length (takeWhile is_space (drop t ?r1)))))
          (tag ?r1) = Some m"
    unfolding match_code_block_def Let_def by (simp only: if_True refl)
  from first_some_SomeD[OF this] obtain t where t: "t \<in> set (tag ?r1)"
    and 1: "first_some (\<lambda>w.
            first_some (\<lambda>c. if closing (drop c (drop w (drop t ?r1)))
                                then Some (take c (drop w (drop t ?r1))) else None)
              (lazy (length (drop w (drop t ?r1)))))
            (greedy (length (takeWhile is_space (drop t ?r1)))) = Some m"
    by blast
  let ?r2 = "drop t ?r1"
  from first_some_SomeD[OF 1] obtain w where w: "w \<le> length (takeWhile is_space ?r2)"
    and 2: "first_some (\<lambda>c. if closing (drop c (drop w ?r2)) then Some (take c (drop w ?r2)) else None)
              (lazy (length (drop w ?r2))) = Some m"
    unfolding set_greedy by auto
  let ?r3 = "drop w ?r2"
  from first_some_SomeD[OF 2] obtain c where c: "closing (drop c ?r3)" "m = take c ?r3"
    by (auto split: if_splits)
  from closingD[OF c(1)] obtain ws2 where ws2: "drop c ?r3 = ws2 @ fence" "list_all is_space ws2"
    by blast
  have "text = take 3 text @ take t ?r1 @ take w ?r2 @ take c ?r3 @ drop c ?r3"
    by (metis append_take_drop_id)
  then have "text = fence @ take t ?r1 @ take w ?r2 @ m @ ws2 @ fence"
    using pre c(2) ws2(1) by simp
  moreover have "list_all is_space (take w ?r2)" using w by (rule take_takeWhile_all)
  ultimately show ?thesis using t ws2(2) by blast
qed

text \<open>
  The search succeeds exactly on a fenced text. The first candidate of every quantifier
  already leads to a match, since neither a tag nor white space holds a backquote, and
  the lazy group stops at the last character before the closing white space.
\<close>

lemma first_some_Cons_Some: "f x = Some y \<Longrightarrow> first_some f (x # xs) = Some y"
  by simp

lemma greedy_Cons: "greedy k = k # rev [0..<k]"
  by (simp add: greedy_def)

lemma first_some_exists: "x \<in> set xs \<Longrightarrow> f x \<noteq> None \<Longrightarrow> first_some f xs \<noteq> None"
  by (induction xs) (auto split: option.splits)

lemma closing_fence: "closing fence"
  by (simp add: closing_def fence_def greedy_def is_space_def)

lemma tick_not_space: "\<not> is_space 0x60"
  by (simp add: is_space_def)

lemma tick_not_word: "\<not> is_word 0x60"
  by (simp add: is_word_def)

lemma ends_with_fence_dropWhile:
  assumes "3 \<le> length r" "drop (length r - 3) r = fence" "\<not> P 0x60"
  shows "3 \<le> length (dropWhile P r) \<and> drop (length (dropWhile P r) - 3) (dropWhile P r) = fence"
proof -
  have "suffix fence r" using assms(2) by (metis suffix_drop)
  then have "suffix fence (takeWhile P r @ dropWhile P r)" by simp
  then have "suffix fence (dropWhile P r) \<or>
             (\<exists>xs'. suffix xs' (takeWhile P r) \<and> xs' \<noteq> [] \<and> fence = xs' @ dropWhile P r)"
    unfolding suffix_append by (cases "dropWhile P r = fence") auto
  then have "suffix fence (dropWhile P r)"
  proof
    assume "suffix fence (dropWhile P r)" then show ?thesis .
  next
    assume "\<exists>xs'. suffix xs' (takeWhile P r) \<and> xs' \<noteq> [] \<and> fence = xs' @ dropWhile P r"
    then obtain xs' where x: "suffix xs' (takeWhile P r)" "xs' \<noteq> []" "fence = xs' @ dropWhile P r"
      by blast
    from x(2) have "hd xs' \<in> set xs'" by simp
    with x(1) have "hd xs' \<in> set (takeWhile P r)" by (meson set_mono_suffix subsetD)
    then have "P (hd xs')" by (blast dest: set_takeWhileD)
    moreover from x(2,3) have "hd xs' = 0x60" by (cases xs') (auto simp: fence_def)
    ultimately show ?thesis using assms(3) by simp
  qed
  then obtain zs where zs: "dropWhile P r = zs @ fence" by (auto simp: suffix_def)
  then show ?thesis by (simp add: fence_def)
qed

lemma trim_spaces_left: "list_all is_space ws \<Longrightarrow> trim (ws @ m) = trim m"
  by (simp add: trim_def dropWhile_append2 list_all_iff)

lemma trim_spaces_right: "list_all is_space ws \<Longrightarrow> trim (m @ ws) = trim m"
proof (cases "\<forall>x\<in>set m. is_space x")
  case True
  assume ws: "list_all is_space ws"
  have a: "dropWhile is_space (m @ ws) = []"
    using True ws by (auto simp: dropWhile_eq_Nil_conv list_all_iff)
  have b: "dropWhile is_space m = []"
    using True by (simp add: dropWhile_eq_Nil_conv)
  show ?thesis unfolding trim_def a b by simp
next
  case False
  assume ws: "list_all is_space ws"
  from False have "dropWhile is_space (m @ ws) = dropWhile is_space m @ ws"
    by (auto simp add: dropWhile_append)
  moreover have "dropWhile is_space (rev ws @ rev (dropWhile is_space m)) =
                 dropWhile is_space (rev (dropWhile is_space m))"
    using ws by (intro dropWhile_append2) (simp add: list_all_iff)
  ultimately show ?thesis by (simp add: trim_def)
qed

lemma match_code_block_fenced:
  assumes "fenced t" and tag: "tag (drop 3 t) = n # ns"
    and n: "drop n (drop 3 t) = dropWhile Q (drop 3 t)" "\<not> Q 0x60"
  shows "\<exists>m. match_code_block tag t = Some m \<and>
             trim m = trim (take (length (dropWhile Q (drop 3 t)) - 3) (dropWhile Q (drop 3 t)))"
proof -
  let ?r1 = "drop 3 t"
  let ?r2 = "dropWhile Q ?r1"
  let ?r3 = "dropWhile is_space ?r2"
  from assms(1) have pre: "take 3 t = fence" and r1: "3 \<le> length ?r1" "drop (length ?r1 - 3) ?r1 = fence"
    by (auto simp: fenced_def)
  from ends_with_fence_dropWhile[where P = Q and r = "?r1", OF r1 n(2)]
  have r2: "3 \<le> length ?r2" "drop (length ?r2 - 3) ?r2 = fence" by auto
  from ends_with_fence_dropWhile[where P = is_space and r = "?r2", OF r2 tick_not_space]
  have r3: "3 \<le> length ?r3" "drop (length ?r3 - 3) ?r3 = fence" by auto
  let ?h = "\<lambda>c. if closing (drop c ?r3) then Some (take c ?r3) else None"
  have "length ?r3 - 3 \<in> set (lazy (length ?r3))" by (auto simp: set_lazy)
  moreover have "?h (length ?r3 - 3) \<noteq> None" using r3(2) closing_fence by simp
  ultimately have "first_some ?h (lazy (length ?r3)) \<noteq> None" by (rule first_some_exists)
  then obtain m where m: "first_some ?h (lazy (length ?r3)) = Some m" by auto
  from first_some_SomeD[OF m] obtain c where c: "closing (drop c ?r3)" "m = take c ?r3"
    by (auto split: if_splits)
  from closingD[OF c(1)] obtain ws2 where ws2: "drop c ?r3 = ws2 @ fence" "list_all is_space ws2"
    by blast
  have r3eq: "?r3 = m @ ws2 @ fence" using c(2) ws2(1) by (metis append_take_drop_id)
  have w: "drop (length (takeWhile is_space ?r2)) ?r2 = ?r3"
    by (simp add: dropWhile_eq_drop)
  have g: "first_some (\<lambda>w. first_some (\<lambda>c. if closing (drop c (drop w ?r2))
                            then Some (take c (drop w ?r2)) else None)
                 (lazy (length (drop w ?r2))))
             (greedy (length (takeWhile is_space ?r2))) = Some m"
    unfolding greedy_Cons by (rule first_some_Cons_Some) (simp only: w m)
  have "match_code_block tag t = Some m"
    unfolding match_code_block_def Let_def tag using pre g
    by (simp only: if_True refl n(1) first_some.simps option.case)
  moreover have "take (length ?r2 - 3) ?r2 = takeWhile is_space ?r2 @ m @ ws2"
  proof -
    define pre where "pre = takeWhile is_space ?r2 @ m @ ws2"
    have e: "?r2 = pre @ fence"
      unfolding pre_def using r3eq by (metis append.assoc takeWhile_dropWhile_id)
    have "length ?r2 = length pre + 3"
      using arg_cong[OF e, of length] by (simp add: fence_def)
    then have "take (length ?r2 - 3) ?r2 = take (length pre) ?r2" by simp
    also have "\<dots> = pre" by (subst e) simp
    finally show ?thesis by (simp add: pre_def)
  qed
  moreover have "list_all is_space (takeWhile is_space ?r2)"
    by (auto simp: list_all_iff dest: set_takeWhileD)
  ultimately show ?thesis
    using ws2(2) trim_spaces_left[of "takeWhile is_space ?r2" "m @ ws2"] trim_spaces_right[of ws2 m]
    by simp
qed

lemma match_code_block_not_fenced:
  assumes "\<not> fenced t"
  shows "match_code_block tag t = None"
proof (rule ccontr)
  assume "match_code_block tag t \<noteq> None"
  then obtain m where "match_code_block tag t = Some m" by auto
  from match_code_blockD[OF this] obtain n ws1 ws2 where
    "t = fence @ take n (drop 3 t) @ ws1 @ m @ ws2 @ fence" by blast
  then have "t = fence @ (take n (drop 3 t) @ ws1 @ m @ ws2) @ fence" by simp
  then obtain mid where t: "t = fence @ mid @ fence" by blast
  have "fenced (fence @ mid @ fence)" by (simp add: fenced_def fence_def)
  with t assms show False by simp
qed

lemma word_tag_Cons:
  "word_tag r = length (takeWhile is_word r) # rev [0..<length (takeWhile is_word r)]"
  by (simp add: word_tag_def greedy_Cons)

section \<open>The response parser: claims\<close>

text \<open>
  C3. When neither tier of the structured parse succeeds, \<open>parseResponse\<close> with
  \<open>expectJson\<close> returns the fallback response: \<open>isFallback\<close> set, the content the raw
  reply itself, not trimmed, and the fixed title, which is not empty. Conversely the
  response of a create-note parse is a fallback only then, so one with \<open>isFallback\<close>
  false comes from a tier that succeeded; the in-place parse never sets \<open>isFallback\<close>.
\<close>

theorem parse_fallback_postcondition:
  "(\<not> tier1_succeeds rt raw \<and> \<not> tier2_succeeds rt raw \<longrightarrow>
      parseResponse rt raw True =
        \<lparr>title = js ''Untitled Gemini Note'', content = raw, anchorLabel = None,
         isFallback = True\<rparr>) \<and>
   js ''Untitled Gemini Note'' \<noteq> [] \<and>
   (isFallback (parseResponse rt raw True) \<longleftrightarrow>
      \<not> tier1_succeeds rt raw \<and> \<not> tier2_succeeds rt raw) \<and>
   \<not> isFallback (parseResponse rt raw False)"
proof -
  have a: "\<not> isFallback (parseResponse rt raw False)"
    by (simp add: parseResponse_def Let_def)
  have b: "js ''Untitled Gemini Note'' \<noteq> []"
    by (simp add: js_def)
  have c: "parseResponse rt raw True =
        \<lparr>title = js ''Untitled Gemini Note'', content = raw, anchorLabel = None,
         isFallback = True\<rparr>"
    if "\<not> tier1_succeeds rt raw" "\<not> tier2_succeeds rt raw"
    using that
    by (auto simp: parseResponse_def Let_def tier1_succeeds_def tier2_succeeds_def
        try_structured_None[symmetric] split: option.splits)
  have d: "\<not> isFallback (parseResponse rt raw True)"
    if "tier1_succeeds rt raw \<or> tier2_succeeds rt raw"
  proof (cases "try_structured rt (cleanJson raw)")
    case (Some r)
    then show ?thesis by (simp add: parseResponse_def try_structured_not_fallback)
  next
    case None
    with that obtain s where s: "jsonSubstring raw = Some s" "structured_ok rt s"
      by (auto simp: try_structured_None tier1_succeeds_def tier2_succeeds_def
          split: option.splits)
    then obtain r where "try_structured rt s = Some r"
      using try_structured_None[of rt s] by auto
    with None s show ?thesis by (simp add: parseResponse_def try_structured_not_fallback)
  qed
  show ?thesis using a b c d by auto
qed

text \<open>C3, at a reply that is prose between blanks: the blanks stay in the content.\<close>

theorem parse_fallback_postcondition_witness:
  "\<not> tier1_succeeds sample_runtime (js '' not json '') \<and>
   \<not> tier2_succeeds sample_runtime (js '' not json '') \<and>
   parseResponse sample_runtime (js '' not json '') True =
     \<lparr>title = js ''Untitled Gemini Note'', content = js '' not json '', anchorLabel = None,
      isFallback = True\<rparr>"
proof -
  have 1: "\<not> tier1_succeeds sample_runtime (js '' not json '')" by code_simp
  have 2: "\<not> tier2_succeeds sample_runtime (js '' not json '')" by code_simp
  show ?thesis
    using 1 2 parse_fallback_postcondition [of sample_runtime "js '' not json ''"] by simp
qed

text \<open>
  C4. The claim: a parsed candidate is accepted only if its title and content are
  non-empty text. \<open>isValidResponse\<close> checks the two types only: the candidate with an
  empty title and an empty content is accepted, and the response is not a fallback.
\<close>

theorem empty_title_accepted:
  "isValidResponse sample_runtime (JObject [(js ''title'', JString []), (js ''content'', JString [])]) \<and>
   parseResponse sample_runtime (js ''{\"title\":\"\",\"content\":\"\"}'') True =
     \<lparr>title = [], content = [], anchorLabel = None, isFallback = False\<rparr>"
  by code_simp

text \<open>
  C5, as the claim states it: the content of an in-place parse is the text itself, or the
  text inside its one fence, unchanged. It is not: a text with no backquote at all loses
  its leading blank, and the line inside a fence loses its indentation.
\<close>

theorem parse_in_place_not_verbatim:
  "content (parseResponse sample_runtime (js '' a'') False) \<noteq> js '' a'' \<and>
   0x60 \<notin> set (js '' a'') \<and>
   content (parseResponse sample_runtime (fence @ [0x0A] @ js ''  x'' @ [0x0A] @ fence) False) = js ''x''"
  by code_simp

text \<open>
  C5, amended. The in-place parse returns an empty title, no anchor label and
  \<open>isFallback\<close> false. Its content is the text with the white space at both ends
  removed; when that trimmed text opens with a fence and closes with another one, the
  opening fence with the word characters after it (the language tag) and the closing
  fence are removed too, and the white space at both ends of what is left.
\<close>

theorem parse_in_place_trimmed:
  "parseResponse rt raw False =
     \<lparr>title = [],
      content = (if fenced (trim raw) then trim (unfence (trim raw)) else trim raw),
      anchorLabel = None,
      isFallback = False\<rparr>"
proof (cases "fenced (trim raw)")
  case False
  then show ?thesis
    by (simp add: parseResponse_def Let_def match_code_block_not_fenced)
next
  case True
  from match_code_block_fenced[where Q = is_word and tag = word_tag, OF True word_tag_Cons _ tick_not_word]
  obtain m where "match_code_block word_tag (trim raw) = Some m"
    "trim m = trim (unfence (trim raw))"
    by (auto simp: unfence_def Let_def dropWhile_eq_drop)
  with True show ?thesis by (simp add: parseResponse_def Let_def)
qed

text \<open>C5, amended, at a fenced block with a language tag and an indented line.\<close>

theorem parse_in_place_trimmed_witness:
  "fenced (trim ([0x20] @ fence @ js ''js'' @ [0x0A, 0x20] @ js ''x'' @ [0x0A] @ fence)) \<and>
   parseResponse sample_runtime ([0x20] @ fence @ js ''js'' @ [0x0A, 0x20] @ js ''x'' @ [0x0A] @ fence) False =
     \<lparr>title = [], content = js ''x'', anchorLabel = None, isFallback = False\<rparr>"
proof -
  let ?raw = "[0x20] @ fence @ js ''js'' @ [0x0A, 0x20] @ js ''x'' @ [0x0A] @ fence"
  have 1: "fenced (trim ?raw)" by code_simp
  have 2: "trim (unfence (trim ?raw)) = js ''x''" by code_simp
  show ?thesis
    using 1 2 parse_in_place_trimmed [of sample_runtime ?raw] by simp
qed

text \<open>
  C10. When the value parsed in tier 1, or in tier 2 after tier 1 failed, has a string
  \<open>title\<close> and a string \<open>content\<close>, the response is not a fallback and its
  \<open>anchorLabel\<close> is whatever the key holds: nothing (\<open>None\<close>), \<open>null\<close>, a number, an
  object or any string. No check reads it.
\<close>

theorem anchorLabel_unchecked:
  assumes "get_prop parsed (js ''title'') = Some (JString t)"
      and "get_prop parsed (js ''content'') = Some (JString c)"
      and "JSON_parse rt (cleanJson raw) = Some parsed \<or>
           (\<not> tier1_succeeds rt raw \<and> jsonSubstring raw = Some s \<and> JSON_parse rt s = Some parsed)"
  shows "parseResponse rt raw True =
           \<lparr>title = t, content = c, anchorLabel = get_prop parsed (js ''anchorLabel''),
            isFallback = False\<rparr>"
proof -
  from assms(1) have obj: "truthy rt parsed" by (cases parsed) auto
  with assms(1,2) have valid: "isValidResponse rt parsed" by (simp add: isValidResponse_def)
  have ts: "try_structured rt x = Some \<lparr>title = t, content = c,
       anchorLabel = get_prop parsed (js ''anchorLabel''), isFallback = False\<rparr>"
    if "JSON_parse rt x = Some parsed" for x
    using that valid assms(1,2) by (simp add: try_structured_def)
  from assms(3) show ?thesis
  proof
    assume "JSON_parse rt (cleanJson raw) = Some parsed"
    then show ?thesis by (simp add: parseResponse_def Let_def ts)
  next
    assume a: "\<not> tier1_succeeds rt raw \<and> jsonSubstring raw = Some s \<and> JSON_parse rt s = Some parsed"
    then have "try_structured rt (cleanJson raw) = None"
      by (simp add: try_structured_None tier1_succeeds_def)
    with a show ?thesis by (simp add: parseResponse_def Let_def ts)
  qed
qed

text \<open>C10, at a reply whose \<open>anchorLabel\<close> is the number 5.\<close>

theorem anchorLabel_unchecked_witness:
  "parseResponse sample_runtime (js ''{\"title\":\"T\",\"content\":\"C\",\"anchorLabel\":5}'') True =
     \<lparr>title = js ''T'', content = js ''C'', anchorLabel = Some (JNumber 5), isFallback = False\<rparr>"
proof -
  let ?raw = "js ''{\"title\":\"T\",\"content\":\"C\",\"anchorLabel\":5}''"
  let ?parsed = "JObject [(js ''title'', JString (js ''T'')), (js ''content'', JString (js ''C'')),
                   (js ''anchorLabel'', JNumber (5::nat))]"
  have 1: "get_prop ?parsed (js ''title'') = Some (JString (js ''T''))" by code_simp
  have 2: "get_prop ?parsed (js ''content'') = Some (JString (js ''C''))" by code_simp
  have 3: "JSON_parse sample_runtime (cleanJson ?raw) = Some ?parsed" by code_simp
  have 4: "get_prop ?parsed (js ''anchorLabel'') = Some (JNumber 5)" by code_simp
  show ?thesis
    using anchorLabel_unchecked [of ?parsed "js ''T''" "js ''C''" sample_runtime ?raw, OF 1 2] 3 4
    by simp
qed

section \<open>Strings, positions and reconciliation: lemmas\<close>

lemma split_nonempty: "split d s \<noteq> []"
  by (induction s) (auto split: list.splits)

lemma posToOffset_split:
  "k \<le> length d \<Longrightarrow>
   posToOffset d (length (split 0x0A (take k d)) - 1) (length (last (split 0x0A (take k d)))) = k"
proof (induction d arbitrary: k)
  case Nil
  then show ?case by simp
next
  case (Cons c cs)
  show ?case
  proof (cases k)
    case 0
    then show ?thesis by simp
  next
    case (Suc k')
    with Cons.prems have k': "k' \<le> length cs" by simp
    let ?r = "split 0x0A (take k' cs)"
    obtain l ls where r: "?r = l # ls" using split_nonempty[of "0x0A" "take k' cs"] by (cases ?r) auto
    note IH = Cons.IH[OF k']
    show ?thesis
    proof (cases "c = 0x0A")
      case True
      then show ?thesis using Suc IH r by simp
    next
      case False
      show ?thesis
      proof (cases ls)
        case Nil
        then show ?thesis using Suc IH r False by simp
      next
        case (Cons a as)
        then show ?thesis using Suc IH r False by simp
      qed
    qed
  qed
qed

lemma substring_0: "k \<le> length s \<Longrightarrow> substring s 0 k = take k s"
  by (simp add: substring_def)

lemma occurs_at_bound: "occurs_at s pat i \<Longrightarrow> i \<le> length s \<Longrightarrow> i + length pat \<le> length s"
proof -
  assume "occurs_at s pat i" and i: "i \<le> length s"
  then have "length (take (length pat) (drop i s)) = length pat"
    by (simp add: occurs_at_def)
  with i show ?thesis by simp
qed

lemma indexOf_occurrences:
  "indexOf s pat = (case occurrences s pat of [] \<Rightarrow> - 1 | i # _ \<Rightarrow> int i)"
  by (simp add: indexOf_def occurrences_def)

lemma lastIndexOf_occurrences:
  "lastIndexOf s pat = (if occurrences s pat = [] then - 1 else int (last (occurrences s pat)))"
proof -
  have "filter (occurs_at s pat) (rev [0..<Suc (length s)]) = rev (occurrences s pat)"
    unfolding occurrences_def by (rule rev_filter[symmetric])
  then show ?thesis
    by (cases "occurrences s pat" rule: rev_cases) (simp_all add: lastIndexOf_def)
qed

lemma distinct_occurrences: "distinct (occurrences s pat)"
  by (simp add: occurrences_def)

lemma unique_index_iff:
  "indexOf s pat \<noteq> - 1 \<and> indexOf s pat = lastIndexOf s pat \<longleftrightarrow> length (occurrences s pat) = 1"
proof (cases "occurrences s pat")
  case Nil
  then show ?thesis by (simp add: indexOf_occurrences)
next
  case (Cons i js)
  have "distinct (i # js)" using distinct_occurrences[of s pat] Cons by simp
  then have "i = last (i # js) \<longleftrightarrow> js = []"
    by (cases js rule: rev_cases) auto
  then show ?thesis using Cons
    by (auto simp add: indexOf_occurrences lastIndexOf_occurrences)
qed

lemma occurrences_singleD:
  assumes "occurrences s pat = [i]"
  shows "indexOf s pat = int i" "lastIndexOf s pat = int i" "occurs_at s pat i" "i \<le> length s"
proof -
  show "indexOf s pat = int i" using assms by (simp add: indexOf_occurrences)
  show "lastIndexOf s pat = int i" using assms by (simp add: lastIndexOf_occurrences)
  have "i \<in> set (occurrences s pat)" using assms by simp
  then show "occurs_at s pat i" "i \<le> length s"
    unfolding occurrences_def set_filter by (simp_all del: upt_Suc)
qed

lemma reconcile_same:
  "getSelection h = anchor \<Longrightarrow> reconcile anchor h = (True, h)"
  by (simp add: reconcile_def)

lemma reconcile_relocate:
  assumes "getSelection h \<noteq> anchor" and "occurrences (doc h) anchor = [i]"
  shows "reconcile anchor h = (True, h\<lparr>sel_from := i, sel_to := i + length anchor\<rparr>)"
proof -
  note o = occurrences_singleD[OF assms(2)]
  from occurs_at_bound[OF o(3,4)] have b: "i + length anchor \<le> length (doc h)" .
  then have b1: "i \<le> length (doc h)" by simp
  have p1: "posToOffset (doc h) (length (split 0x0A (substring (doc h) 0 i)) - 1)
              (length (last (split 0x0A (substring (doc h) 0 i)))) = i"
    using posToOffset_split[OF b1] by (simp add: substring_0[OF b1])
  have p2: "posToOffset (doc h) (length (split 0x0A (substring (doc h) 0 (i + length anchor))) - 1)
              (length (last (split 0x0A (substring (doc h) 0 (i + length anchor))))) = i + length anchor"
    using posToOffset_split[OF b] by (simp add: substring_0[OF b])
  show ?thesis
    using assms(1) o(1,2) p1 p2
    by (simp add: reconcile_def Let_def getValue_def setSelection_def)
qed

lemma reconcile_diverts:
  assumes "getSelection h \<noteq> anchor" and "length (occurrences (doc h) anchor) \<noteq> 1"
  shows "reconcile anchor h = (False, h)"
  using assms unique_index_iff[of "doc h" anchor]
  by (auto simp add: reconcile_def Let_def getValue_def)

lemma getSelection_relocated:
  assumes "occurs_at (doc h) anchor i"
  shows "getSelection (h\<lparr>sel_from := i, sel_to := i + length anchor\<rparr>) = anchor"
  using assms by (simp add: getSelection_def occurs_at_def)

section \<open>The orchestrator: lemmas\<close>

text \<open>The only error of a conversion to a string is the TypeError.\<close>

lemma toString_error:
  "toString rt v = Inl e \<Longrightarrow> e = TypeError"
  "join rt xs = Inl e \<Longrightarrow> e = TypeError"
  by (induction rt v and rt xs rule: toString_join.induct)
     (auto split: if_splits sum.splits)

lemma createNoteFile_frame:
  "doc (snd (createNoteFile np response request pf h)) = doc h"
  "sel_from (snd (createNoteFile np response request pf h)) = sel_from h"
  "sel_to (snd (createNoteFile np response request pf h)) = sel_to h"
  "clipboard (snd (createNoteFile np response request pf h)) = clipboard h"
  by (simp_all add: createNoteFile_def Let_def createFolder_def create_def notify_def)

lemma createNoteFile_preserves:
  "vault h p = Some e \<Longrightarrow> vault (snd (createNoteFile np response request pf h)) p = Some e"
  by (auto simp add: createNoteFile_def Let_def createFolder_def create_def notify_def)

lemma createNoteFile_collision:
  assumes "vault h (targetPath np response request pf) = Some e"
  shows "fst (createNoteFile np response request pf h) = None"
    and "AlreadyExists (targetPath np response request pf) \<in>
           set (notices (snd (createNoteFile np response request pf h)))"
  using assms
  by (auto simp add: createNoteFile_def Let_def createFolder_def create_def notify_def)

lemma createNoteFile_creates:
  assumes "vault h (targetPath np response request pf) = None"
      and "targetPath np response request pf \<noteq> targetFolder np request pf"
  shows "fst (createNoteFile np response request pf h) = Some (targetPath np response request pf)"
    and "vault (snd (createNoteFile np response request pf h)) (targetPath np response request pf) =
           Some (File (parentLink pf @ content response))"
    and "notices (snd (createNoteFile np response request pf h)) = notices h"
  using assms
  by (auto simp add: createNoteFile_def Let_def createFolder_def create_def notify_def)

lemma applyResponse_diverted:
  assumes "reconcile (selectedText request) h = (False, h)"
  shows "applyResponse rt np request pf response h =
          (if outputAction request = create_note
           then (case clipboardLink rt response (selectedText request) of
                   Inl e \<Rightarrow> (Some e, notify SelectionChanged h)
                 | Inr link \<Rightarrow>
                     (None, writeClipboard link
                        (snd (createNoteFile np response request pf (notify SelectionChanged h)))))
           else (None, writeClipboard (content response) (notify SelectionChanged h)))"
  using assms by (simp add: applyResponse_def Let_def split: prod.splits sum.splits)

lemma applyResponse_safe:
  assumes "reconcile (selectedText request) h = (True, h1)"
  shows "applyResponse rt np request pf response h =
          (if outputAction request = create_note
           then handleCreateNoteAction rt np response request pf h1
           else if outputAction request = replace_selection
           then (None, notify Replaced (replaceSelection (content response) h1))
           else (None, notify Inserted
                   (replaceSelection (selectedText request @ [0x0A, 0x0A] @ content response) h1)))"
  using assms by (simp add: applyResponse_def Let_def)

lemma reconcile_frame:
  "vault (snd (reconcile anchor h)) = vault h"
  "doc (snd (reconcile anchor h)) = doc h"
  "notices (snd (reconcile anchor h)) = notices h"
  "clipboard (snd (reconcile anchor h)) = clipboard h"
  by (simp_all add: reconcile_def Let_def setSelection_def)

lemma handleCreateNoteAction_collision:
  assumes "vault h (targetPath np response request pf) = Some e"
  shows "handleCreateNoteAction rt np response request pf h =
           (None, snd (createNoteFile np response request pf h))"
proof (cases "createNoteFile np response request pf h")
  case (Pair f h1)
  with createNoteFile_collision(1)[OF assms, of ] have "f = None" by simp
  with Pair show ?thesis by (simp add: handleCreateNoteAction_def)
qed

text \<open>The link is the title and a label between the brackets, whatever the label is.\<close>

lemma clipboardLink_form:
  assumes "clipboardLink rt response snapshot = Inr link"
  shows "\<exists>label. link = js ''[['' @ title response @ js ''|'' @ label @ js '']]'' \<and>
           (case anchorLabel response of
              None \<Rightarrow> label = snapshot
            | Some v \<Rightarrow> if truthy rt v then toString rt v = Inr label else label = snapshot)"
  using assms
  by (auto simp: clipboardLink_def split: option.splits if_splits sum.splits)

lemma count_visible_append: "count_visible (a @ b) = count_visible a + count_visible b"
  by (simp add: count_visible_def)

lemma filter_visible_dropWhile: "filter visible (dropWhile is_space s) = filter visible s"
  by (induction s) (auto simp: visible_def)

lemma count_visible_trim: "count_visible (trim s) = count_visible s"
proof -
  have "filter visible (trim s) = rev (filter visible (dropWhile is_space (rev (dropWhile is_space s))))"
    by (simp add: trim_def rev_filter)
  also have "\<dots> = filter visible s"
    by (simp add: filter_visible_dropWhile rev_filter)
  finally show ?thesis by (simp add: count_visible_def)
qed

lemma count_visible_safeTitle: "count_visible (safeTitle t) = count_visible t"
proof -
  have "filter visible (filter (\<lambda>c. \<not> illegal c) t) = filter visible t"
    by (auto simp: visible_def intro: filter_cong)
  then show ?thesis
    unfolding safeTitle_def count_visible_trim by (simp add: count_visible_def)
qed

lemma count_visible_consts:
  "count_visible (js ''/'') = 0" "count_visible (js ''.md'') = 3"
  "count_visible (js ''[['') = 2" "count_visible (js ''|'') = 0" "count_visible (js '']]'') = 2"
  by (simp_all add: count_visible_def visible_def illegal_def is_space_def js_def)

lemma trim_empty_count: "trim s = [] \<Longrightarrow> count_visible s = 0"
  using count_visible_trim[of s] by (simp add: count_visible_def)

lemma set_trim: "set (trim s) \<subseteq> set s"
proof -
  have "set (trim s) = set (dropWhile is_space (rev (dropWhile is_space s)))"
    by (simp add: trim_def)
  also have "\<dots> \<subseteq> set (rev (dropWhile is_space s))" by (auto dest: set_dropWhileD)
  also have "\<dots> \<subseteq> set s" by (auto dest: set_dropWhileD)
  finally show ?thesis .
qed

lemma safeTitle_legal: "list_all (\<lambda>c. \<not> illegal c) (safeTitle t)"
  using set_trim[of "filter (\<lambda>c. \<not> illegal c) t"]
  by (auto simp: safeTitle_def list_all_iff)

text \<open>
  When the inserted link has a label, the copied link exists too, and its label has no
  more visible characters than the inserted one.
\<close>

lemma clipboardLink_label:
  assumes "linkLabel rt response request = Inr label"
  shows "\<exists>l. clipboardLink rt response (selectedText request) =
               Inr (js ''[['' @ title response @ js ''|'' @ l @ js '']]'') \<and>
             count_visible l \<le> count_visible label"
proof (cases "anchorLabel response")
  case None
  with assms show ?thesis by (auto simp: linkLabel_def clipboardLink_def)
next
  case (Some v)
  show ?thesis
  proof (cases "truthy rt v")
    case False
    with Some assms show ?thesis by (auto simp: linkLabel_def clipboardLink_def)
  next
    case True
    with Some assms obtain s where s: "v = JString s"
      by (cases v) (auto simp: linkLabel_def)
    with Some True assms have "label = (if trim s \<noteq> [] then s else selectedText request)"
      by (auto simp: linkLabel_def)
    then have "count_visible s \<le> count_visible label"
      by (auto simp: trim_empty_count)
    with Some True s show ?thesis by (auto simp: clipboardLink_def)
  qed
qed

lemma title_less_path:
  assumes "count_visible (targetPath np response request pf) =
           count_visible (targetFolder np request pf @ js ''/'' @ safeTitle (title response) @ js ''.md'')"
  shows "count_visible (title response) + 3 \<le> count_visible (targetPath np response request pf)"
  using assms by (simp add: count_visible_append count_visible_consts count_visible_safeTitle)

lemma handleCreateNoteAction_inserts:
  assumes "vault h (targetPath np response request pf) = None"
      and "targetPath np response request pf \<noteq> targetFolder np request pf"
      and "linkLabel rt response request = Inr label"
  shows "doc (snd (handleCreateNoteAction rt np response request pf h)) =
           take (sel_from h) (doc h) @
           js ''[['' @ targetPath np response request pf @ js ''|'' @ label @ js '']]'' @
           drop (sel_to h) (doc h)"
    and "vault (snd (handleCreateNoteAction rt np response request pf h))
           (targetPath np response request pf) = Some (File (parentLink pf @ content response))"
proof -
  obtain f h1 where Pair: "createNoteFile np response request pf h = (f, h1)"
    by (cases "createNoteFile np response request pf h")
  with createNoteFile_creates(1,2)[OF assms(1,2)]
  have f: "f = Some (targetPath np response request pf)"
    and v: "vault h1 (targetPath np response request pf) = Some (File (parentLink pf @ content response))"
    by simp_all
  from Pair createNoteFile_frame[of np response request pf h]
  have fr: "doc h1 = doc h" "sel_from h1 = sel_from h" "sel_to h1 = sel_to h" by simp_all
  from Pair f assms(3) fr show "doc (snd (handleCreateNoteAction rt np response request pf h)) =
           take (sel_from h) (doc h) @
           js ''[['' @ targetPath np response request pf @ js ''|'' @ label @ js '']]'' @
           drop (sel_to h) (doc h)"
    by (simp add: handleCreateNoteAction_def Let_def notify_def replaceSelection_def)
  from Pair f assms(3) v show "vault (snd (handleCreateNoteAction rt np response request pf h))
           (targetPath np response request pf) = Some (File (parentLink pf @ content response))"
    by (simp add: handleCreateNoteAction_def Let_def notify_def replaceSelection_def)
qed

lemma custom_host_never_empty:
  "generateWithCustomHost rt reply = Inr v \<Longrightarrow> truthy rt v"
  by (auto simp: generateWithCustomHost_def split: http_reply.splits if_splits option.splits json.splits)

text \<open>
  A run whose reconciliation fails never edits the document or moves the selection, and
  in the in-place modes it always copies the content.
\<close>

lemma diverted_run_frame:
  assumes "getSelection h \<noteq> selectedText request"
      and "length (occurrences (doc h) (selectedText request)) \<noteq> 1"
  shows "doc (snd (applyResponse rt np request pf response h)) = doc h"
    and "sel_from (snd (applyResponse rt np request pf response h)) = sel_from h"
    and "sel_to (snd (applyResponse rt np request pf response h)) = sel_to h"
    and "outputAction request \<noteq> create_note \<Longrightarrow>
           applyResponse rt np request pf response h =
             (None, writeClipboard (content response) (notify SelectionChanged h))"
proof -
  have r: "reconcile (selectedText request) h = (False, h)"
    using assms by (rule reconcile_diverts)
  show "doc (snd (applyResponse rt np request pf response h)) = doc h"
    by (simp add: applyResponse_diverted[OF r] writeClipboard_def createNoteFile_frame notify_def
        split: sum.splits)
  show "sel_from (snd (applyResponse rt np request pf response h)) = sel_from h"
    by (simp add: applyResponse_diverted[OF r] writeClipboard_def createNoteFile_frame notify_def
        split: sum.splits)
  show "sel_to (snd (applyResponse rt np request pf response h)) = sel_to h"
    by (simp add: applyResponse_diverted[OF r] writeClipboard_def createNoteFile_frame notify_def
        split: sum.splits)
  show "outputAction request \<noteq> create_note \<Longrightarrow>
           applyResponse rt np request pf response h =
             (None, writeClipboard (content response) (notify SelectionChanged h))"
    by (simp add: applyResponse_diverted[OF r])
qed

section \<open>The orchestrator: claims\<close>

text \<open>
  C1. The comparison comes first: when the live selection equals the snapshot the
  verification leaves the host as it is, whatever the document holds, and a replacement
  is made at the current selection. Only when they differ is the document scanned; when
  the snapshot occurs exactly once, at offset \<open>i\<close>, the selection becomes the span
  computed from the line and column of \<open>i\<close> and of \<open>i + length\<close>, the text of the document
  in that span is the snapshot, and a replacement is made there.
\<close>

theorem safe_apply_reconciliation:
  "(getSelection h = selectedText request \<longrightarrow>
      reconcile (selectedText request) h = (True, h) \<and>
      (outputAction request = replace_selection \<longrightarrow>
         doc (snd (applyResponse rt np request pf response h)) =
           take (sel_from h) (doc h) @ content response @ drop (sel_to h) (doc h))) \<and>
   (getSelection h \<noteq> selectedText request \<and> occurrences (doc h) (selectedText request) = [i] \<longrightarrow>
      reconcile (selectedText request) h =
        (True, h\<lparr>sel_from := i, sel_to := i + length (selectedText request)\<rparr>) \<and>
      getSelection (h\<lparr>sel_from := i, sel_to := i + length (selectedText request)\<rparr>) =
        selectedText request \<and>
      (outputAction request = replace_selection \<longrightarrow>
         doc (snd (applyResponse rt np request pf response h)) =
           take i (doc h) @ content response @ drop (i + length (selectedText request)) (doc h)))"
proof (intro conjI impI)
  assume s: "getSelection h = selectedText request"
  then show r: "reconcile (selectedText request) h = (True, h)" by (rule reconcile_same)
  assume "outputAction request = replace_selection"
  then show "doc (snd (applyResponse rt np request pf response h)) =
           take (sel_from h) (doc h) @ content response @ drop (sel_to h) (doc h)"
    by (simp add: applyResponse_safe[OF r] notify_def replaceSelection_def)
next
  assume a: "getSelection h \<noteq> selectedText request \<and> occurrences (doc h) (selectedText request) = [i]"
  then show r: "reconcile (selectedText request) h =
        (True, h\<lparr>sel_from := i, sel_to := i + length (selectedText request)\<rparr>)"
    by (simp add: reconcile_relocate)
  from a show "getSelection (h\<lparr>sel_from := i, sel_to := i + length (selectedText request)\<rparr>) =
        selectedText request"
    by (simp add: getSelection_relocated occurrences_singleD(3))
  assume "outputAction request = replace_selection"
  then show "doc (snd (applyResponse rt np request pf response h)) =
           take i (doc h) @ content response @ drop (i + length (selectedText request)) (doc h)"
    by (simp add: applyResponse_safe[OF r] notify_def replaceSelection_def)
qed

text \<open>C1, at a two-line document in which the user moved the selection away from \<open>foo\<close>.\<close>

theorem safe_apply_reconciliation_witness:
  "getSelection (sample_host ([0x61, 0x0A] @ js ''x foo b'') 0 1 []) \<noteq>
     selectedText (sample_request replace_selection) \<and>
   occurrences (doc (sample_host ([0x61, 0x0A] @ js ''x foo b'') 0 1 []))
     (selectedText (sample_request replace_selection)) = [4] \<and>
   getSelection ((sample_host ([0x61, 0x0A] @ js ''x foo b'') 0 1 [])
      \<lparr>sel_from := 4, sel_to := 4 + length (selectedText (sample_request replace_selection))\<rparr>) =
     selectedText (sample_request replace_selection) \<and>
   doc (snd (applyResponse sample_runtime sample_normalizePath (sample_request replace_selection)
      sample_file sample_response (sample_host ([0x61, 0x0A] @ js ''x foo b'') 0 1 []))) =
     [0x61, 0x0A] @ js ''x new b''"
proof -
  let ?h = "sample_host ([0x61, 0x0A] @ js ''x foo b'') 0 1 []"
  let ?req = "sample_request replace_selection"
  have 1: "getSelection ?h \<noteq> selectedText ?req" by code_simp
  have 2: "occurrences (doc ?h) (selectedText ?req) = [4]" by code_simp
  have 3: "outputAction ?req = replace_selection" by (simp add: sample_request_def)
  have 4: "take 4 (doc ?h) @ content sample_response @ drop (4 + length (selectedText ?req)) (doc ?h) =
           [0x61, 0x0A] @ js ''x new b''" by code_simp
  show ?thesis
    using 1 2 3 4
      safe_apply_reconciliation [of ?h ?req sample_runtime sample_normalizePath sample_file
        sample_response 4]
    by simp
qed

text \<open>
  C2. The claim: in every run in which the live selection differs from the snapshot and
  the snapshot occurs in the document not at all or more than once, the result is copied
  to the clipboard and the document is not edited. The document is never edited on that
  path and the in-place modes always copy the content (\<open>diverted_run_frame\<close>). In
  create-note mode the link text is built after the warning and before anything else,
  and its template literal throws on a label that has no string form: for the reply
  whose \<open>anchorLabel\<close> is the object \<open>{"toString":1}\<close>, which the parser passes on as it
  is, the body ends in a TypeError, nothing is copied, no note is created, and the run
  shows the warning and then the failure notice.
\<close>

theorem diversion_lost_on_unconvertible_label:
  "parseResponse sample_runtime
     (js ''{\"title\":\"T\",\"content\":\"new\",\"anchorLabel\":{\"toString\":1}}'') True =
     sample_unconvertible \<and>
   getSelection (sample_host (js ''foo foo'') 3 4 []) \<noteq> selectedText (sample_request create_note) \<and>
   length (occurrences (doc (sample_host (js ''foo foo'') 3 4 []))
     (selectedText (sample_request create_note))) \<noteq> 1 \<and>
   fst (applyResponse sample_runtime sample_normalizePath (sample_request create_note) sample_file
      sample_unconvertible (sample_host (js ''foo foo'') 3 4 [])) = Some TypeError \<and>
   clipboard (runGeneration sample_runtime sample_normalizePath sample_service
      (sample_request create_note) sample_file
      \<lparr>on_sdk = SdkResponse (Some
         (js ''{\"title\":\"T\",\"content\":\"new\",\"anchorLabel\":{\"toString\":1}}'')),
       on_host = RequestThrows\<rparr>
      (sample_host (js ''foo foo'') 3 4 [])) = None \<and>
   vault (runGeneration sample_runtime sample_normalizePath sample_service
      (sample_request create_note) sample_file
      \<lparr>on_sdk = SdkResponse (Some
         (js ''{\"title\":\"T\",\"content\":\"new\",\"anchorLabel\":{\"toString\":1}}'')),
       on_host = RequestThrows\<rparr>
      (sample_host (js ''foo foo'') 3 4 [])) (js ''notes/T.md'') = None \<and>
   notices (runGeneration sample_runtime sample_normalizePath sample_service
      (sample_request create_note) sample_file
      \<lparr>on_sdk = SdkResponse (Some
         (js ''{\"title\":\"T\",\"content\":\"new\",\"anchorLabel\":{\"toString\":1}}'')),
       on_host = RequestThrows\<rparr>
      (sample_host (js ''foo foo'') 3 4 [])) = [SelectionChanged, Failed]"
  by code_simp

text \<open>
  C6. The claim: on both paths an empty or missing response text is an error.
  \<open>generateWithSdk\<close> returns \<open>response.text || ""\<close>: with no text in the SDK's
  response the call succeeds with the empty string, \<open>generateNote\<close> returns a response
  with empty content, and a replace-selection run replaces the selected text by nothing.
  The custom-host path throws on the same reply (\<open>custom_host_never_empty\<close>).
\<close>

theorem sdk_empty_text_is_success:
  "generateWithSdk (SdkResponse None) = Inr [] \<and>
   generateNote sample_runtime
     \<lparr>apiKey = js ''k'', apiHost = [], modelName = js ''m'', createNoteMetaPrompt = [],
      inPlaceMetaPrompt = []\<rparr>
     (sample_request replace_selection)
     \<lparr>on_sdk = SdkResponse None, on_host = RequestThrows\<rparr> =
     Inr \<lparr>title = [], content = [], anchorLabel = None, isFallback = False\<rparr> \<and>
   doc (runGeneration sample_runtime sample_normalizePath
     \<lparr>apiKey = js ''k'', apiHost = [], modelName = js ''m'', createNoteMetaPrompt = [],
      inPlaceMetaPrompt = []\<rparr>
     (sample_request replace_selection) sample_file
     \<lparr>on_sdk = SdkResponse None, on_host = RequestThrows\<rparr>
     (sample_host (js ''a foo b'') 2 5 [])) = js ''a  b''"
  by code_simp




text \<open>
  C8. When a document already stands at the target path, \<open>createNoteFile\<close> returns no
  document and shows the collision notice, and every entry of the vault keeps its
  content. A create-note run then leaves that document and the source document as they
  were; it shows the notice unless it ends in an error, and it ends in an error only when
  the link text of the diversion cannot be built, before \<open>createNoteFile\<close> is reached,
  with the vault untouched.
\<close>

theorem collision_aborts_creation:
  assumes "vault h (targetPath np response request pf) = Some (File old)"
  shows "fst (createNoteFile np response request pf h) = None \<and>
         AlreadyExists (targetPath np response request pf) \<in>
           set (notices (snd (createNoteFile np response request pf h))) \<and>
         (\<forall>p e. vault h p = Some e \<longrightarrow>
            vault (snd (createNoteFile np response request pf h)) p = Some e) \<and>
         (outputAction request = create_note \<longrightarrow>
            vault (snd (applyResponse rt np request pf response h))
              (targetPath np response request pf) = Some (File old) \<and>
            doc (snd (applyResponse rt np request pf response h)) = doc h \<and>
            (fst (applyResponse rt np request pf response h) = None \<longrightarrow>
               AlreadyExists (targetPath np response request pf) \<in>
                 set (notices (snd (applyResponse rt np request pf response h)))) \<and>
            (fst (applyResponse rt np request pf response h) \<noteq> None \<longrightarrow>
               clipboardLink rt response (selectedText request) = Inl TypeError \<and>
               vault (snd (applyResponse rt np request pf response h)) = vault h))"
proof (intro conjI impI allI)
  show "fst (createNoteFile np response request pf h) = None"
    using assms by (rule createNoteFile_collision)
  show "AlreadyExists (targetPath np response request pf) \<in>
           set (notices (snd (createNoteFile np response request pf h)))"
    using assms by (rule createNoteFile_collision)
  show "vault (snd (createNoteFile np response request pf h)) p = Some e"
    if "vault h p = Some e" for p e using that by (rule createNoteFile_preserves)
next
  assume cn: "outputAction request = create_note"
  let ?r = "reconcile (selectedText request) h"
  let ?h1 = "snd ?r"
  let ?t = "targetPath np response request pf"
  let ?c = "clipboardLink rt response (selectedText request)"
  have v1: "vault ?h1 ?t = Some (File old)"
    using assms by (simp add: reconcile_frame)
  let ?h2 = "notify SelectionChanged ?h1"
  have v2: "vault ?h2 ?t = Some (File old)"
    using v1 by (simp add: notify_def)
  have ap: "applyResponse rt np request pf response h =
              (if fst ?r
               then (None, snd (createNoteFile np response request pf ?h1))
               else (case ?c of
                       Inl e \<Rightarrow> (Some e, ?h2)
                     | Inr link \<Rightarrow>
                         (None, writeClipboard link (snd (createNoteFile np response request pf ?h2)))))"
    using cn handleCreateNoteAction_collision[OF v1, of rt]
    by (auto simp add: applyResponse_def Let_def split: prod.splits sum.splits)
  have p1: "vault (snd (createNoteFile np response request pf ?h1)) ?t = Some (File old)"
    using v1 by (rule createNoteFile_preserves)
  have p2: "vault (snd (createNoteFile np response request pf ?h2)) ?t = Some (File old)"
    using v2 by (rule createNoteFile_preserves)
  show "vault (snd (applyResponse rt np request pf response h)) ?t = Some (File old)"
    using p1 p2 v2 by (simp add: ap writeClipboard_def split: sum.splits)
  show "doc (snd (applyResponse rt np request pf response h)) = doc h"
    by (simp add: ap writeClipboard_def createNoteFile_frame reconcile_frame notify_def
        split: sum.splits)
  have n1: "AlreadyExists ?t \<in> set (notices (snd (createNoteFile np response request pf ?h1)))"
    using v1 by (rule createNoteFile_collision)
  have n2: "AlreadyExists ?t \<in> set (notices (snd (createNoteFile np response request pf ?h2)))"
    using v2 by (rule createNoteFile_collision)
  show "AlreadyExists ?t \<in> set (notices (snd (applyResponse rt np request pf response h)))"
    if "fst (applyResponse rt np request pf response h) = None"
    using that n1 n2 by (auto simp add: ap writeClipboard_def split: sum.splits if_splits)
  have e: "?c = Inl TypeError" if "?c = Inl x" for x
    using that
    by (auto simp: clipboardLink_def dest: toString_error(1) split: option.splits if_splits sum.splits)
  assume f: "fst (applyResponse rt np request pf response h) \<noteq> None"
  then obtain x where x: "\<not> fst ?r" "?c = Inl x"
    by (auto simp add: ap split: sum.splits if_splits)
  show "?c = Inl TypeError" using e[OF x(2)] .
  show "vault (snd (applyResponse rt np request pf response h)) = vault h"
    using x by (simp add: ap notify_def reconcile_frame)
qed

text \<open>C8, at a vault that already holds \<open>notes/T.md\<close>.\<close>

theorem collision_aborts_creation_witness:
  "vault (sample_host (js ''foo foo'') 0 3 [(js ''notes/T.md'', File (js ''old''))])
     (targetPath sample_normalizePath sample_response (sample_request create_note) sample_file) =
     Some (File (js ''old'')) \<and>
   fst (createNoteFile sample_normalizePath sample_response (sample_request create_note) sample_file
     (sample_host (js ''foo foo'') 0 3 [(js ''notes/T.md'', File (js ''old''))])) = None \<and>
   vault (snd (applyResponse sample_runtime sample_normalizePath (sample_request create_note)
      sample_file sample_response
      (sample_host (js ''foo foo'') 0 3 [(js ''notes/T.md'', File (js ''old''))])))
     (targetPath sample_normalizePath sample_response (sample_request create_note) sample_file) =
     Some (File (js ''old'')) \<and>
   doc (snd (applyResponse sample_runtime sample_normalizePath (sample_request create_note)
      sample_file sample_response
      (sample_host (js ''foo foo'') 0 3 [(js ''notes/T.md'', File (js ''old''))]))) =
     doc (sample_host (js ''foo foo'') 0 3 [(js ''notes/T.md'', File (js ''old''))])"
proof -
  let ?h = "sample_host (js ''foo foo'') 0 3 [(js ''notes/T.md'', File (js ''old''))]"
  let ?req = "sample_request create_note"
  have 0: "outputAction ?req = create_note" by (simp add: sample_request_def)
  have 1: "vault ?h (targetPath sample_normalizePath sample_response ?req sample_file) =
           Some (File (js ''old''))" by code_simp
  show ?thesis
    using 0 1 collision_aborts_creation [OF 1, of sample_runtime]
    by simp
qed

text \<open>
  C9. The target path of a create-note run is the normalised \<open>folder/safeTitle.md\<close>,
  where the safe title has no illegal character. On the apply path the file is created
  at that path and the link inserted is \<open>[[path|label]]\<close>; on the diversion path the link
  copied, when it can be built, is \<open>[[title|label]]\<close> with the raw title of the response.
  Provided normalising keeps the number of visible file-name characters of the path, the
  title is never that path, and whenever the inserted link has a label the copied link
  exists and is not the inserted one: whatever the title and the folder are, and so in
  particular for a title with illegal characters or a folder that is not the root.
\<close>

theorem clipboard_link_is_not_the_inserted_link:
  assumes "count_visible (targetPath np response request pf) =
           count_visible (targetFolder np request pf @ js ''/'' @ safeTitle (title response) @ js ''.md'')"
      and "outputAction request = create_note"
  shows "targetPath np response request pf =
           np ((if saveLocation request \<noteq> [] then np (saveLocation request)
                else case parent_path pf of None \<Rightarrow> [] | Some p \<Rightarrow> p) @
               js ''/'' @ safeTitle (title response) @ js ''.md'') \<and>
         list_all (\<lambda>c. \<not> illegal c) (safeTitle (title response)) \<and>
         (getSelection h = selectedText request \<and>
          vault h (targetPath np response request pf) = None \<and>
          targetPath np response request pf \<noteq> targetFolder np request pf \<and>
          linkLabel rt response request = Inr label \<longrightarrow>
            doc (snd (applyResponse rt np request pf response h)) =
              take (sel_from h) (doc h) @
              js ''[['' @ targetPath np response request pf @ js ''|'' @ label @ js '']]'' @
              drop (sel_to h) (doc h) \<and>
            vault (snd (applyResponse rt np request pf response h))
              (targetPath np response request pf) = Some (File (parentLink pf @ content response))) \<and>
         (getSelection h \<noteq> selectedText request \<and>
          length (occurrences (doc h) (selectedText request)) \<noteq> 1 \<and>
          clipboardLink rt response (selectedText request) = Inr link \<longrightarrow>
            clipboard (snd (applyResponse rt np request pf response h)) = Some link \<and>
            (\<exists>l. link = js ''[['' @ title response @ js ''|'' @ l @ js '']]'')) \<and>
         title response \<noteq> targetPath np response request pf \<and>
         (linkLabel rt response request = Inr label \<longrightarrow>
            (\<exists>copied. clipboardLink rt response (selectedText request) = Inr copied \<and>
               copied \<noteq>
               js ''[['' @ targetPath np response request pf @ js ''|'' @ label @ js '']]''))"
proof (intro conjI impI)
  show "targetPath np response request pf =
           np ((if saveLocation request \<noteq> [] then np (saveLocation request)
                else case parent_path pf of None \<Rightarrow> [] | Some p \<Rightarrow> p) @
               js ''/'' @ safeTitle (title response) @ js ''.md'')"
    by (simp add: targetPath_def targetFolder_def)
  show "list_all (\<lambda>c. \<not> illegal c) (safeTitle (title response))"
    by (rule safeTitle_legal)
next
  assume a: "getSelection h = selectedText request \<and>
          vault h (targetPath np response request pf) = None \<and>
          targetPath np response request pf \<noteq> targetFolder np request pf \<and>
          linkLabel rt response request = Inr label"
  then have r: "reconcile (selectedText request) h = (True, h)" by (simp add: reconcile_same)
  from a assms(2) show "doc (snd (applyResponse rt np request pf response h)) =
              take (sel_from h) (doc h) @
              js ''[['' @ targetPath np response request pf @ js ''|'' @ label @ js '']]'' @
              drop (sel_to h) (doc h)"
    by (simp add: applyResponse_safe[OF r] handleCreateNoteAction_inserts)
  from a assms(2) show "vault (snd (applyResponse rt np request pf response h))
              (targetPath np response request pf) = Some (File (parentLink pf @ content response))"
    by (simp add: applyResponse_safe[OF r] handleCreateNoteAction_inserts)
next
  assume a: "getSelection h \<noteq> selectedText request \<and>
          length (occurrences (doc h) (selectedText request)) \<noteq> 1 \<and>
          clipboardLink rt response (selectedText request) = Inr link"
  then have r: "reconcile (selectedText request) h = (False, h)" by (simp add: reconcile_diverts)
  show "clipboard (snd (applyResponse rt np request pf response h)) = Some link"
    using assms(2) a by (simp add: applyResponse_diverted[OF r] writeClipboard_def)
  from a clipboardLink_form[of rt response "selectedText request" link]
  show "\<exists>l. link = js ''[['' @ title response @ js ''|'' @ l @ js '']]''" by blast
next
  from title_less_path[OF assms(1)]
  show "title response \<noteq> targetPath np response request pf" by auto
next
  assume "linkLabel rt response request = Inr label"
  from clipboardLink_label[OF this] obtain l where
    l: "clipboardLink rt response (selectedText request) =
               Inr (js ''[['' @ title response @ js ''|'' @ l @ js '']]'')"
       "count_visible l \<le> count_visible label" by blast
  define copied where "copied = js ''[['' @ title response @ js ''|'' @ l @ js '']]''"
  define inserted where
    "inserted = js ''[['' @ targetPath np response request pf @ js ''|'' @ label @ js '']]''"
  have "count_visible copied < count_visible inserted"
    using title_less_path[OF assms(1)] l(2)
    by (simp add: copied_def inserted_def count_visible_append count_visible_consts)
  then have "copied \<noteq> inserted" by auto
  then have "js ''[['' @ title response @ js ''|'' @ l @ js '']]'' \<noteq>
            js ''[['' @ targetPath np response request pf @ js ''|'' @ label @ js '']]''"
    unfolding copied_def inserted_def .
  with l(1) show "\<exists>copied. clipboardLink rt response (selectedText request) = Inr copied \<and>
               copied \<noteq>
               js ''[['' @ targetPath np response request pf @ js ''|'' @ label @ js '']]''"
    by blast
qed

text \<open>C9, at the title \<open>T:1\<close> in the folder \<open>notes\<close>.\<close>

theorem clipboard_link_is_not_the_inserted_link_witness:
  "count_visible (targetPath sample_normalizePath (sample_response\<lparr>title := js ''T:1''\<rparr>)
      (sample_request create_note) sample_file) =
   count_visible (targetFolder sample_normalizePath (sample_request create_note) sample_file @ js ''/'' @
                  safeTitle (title (sample_response\<lparr>title := js ''T:1''\<rparr>)) @ js ''.md'') \<and>
   linkLabel sample_runtime (sample_response\<lparr>title := js ''T:1''\<rparr>) (sample_request create_note) =
     Inr (js ''foo'') \<and>
   targetPath sample_normalizePath (sample_response\<lparr>title := js ''T:1''\<rparr>)
      (sample_request create_note) sample_file = js ''notes/T1.md'' \<and>
   clipboardLink sample_runtime (sample_response\<lparr>title := js ''T:1''\<rparr>)
      (selectedText (sample_request create_note)) = Inr (js ''[[T:1|foo]]'') \<and>
   title (sample_response\<lparr>title := js ''T:1''\<rparr>) \<noteq>
     targetPath sample_normalizePath (sample_response\<lparr>title := js ''T:1''\<rparr>)
       (sample_request create_note) sample_file"
proof -
  let ?req = "sample_request create_note"
  let ?resp = "sample_response\<lparr>title := js ''T:1''\<rparr>"
  have 0: "outputAction ?req = create_note" by (simp add: sample_request_def)
  have 1: "count_visible (targetPath sample_normalizePath ?resp ?req sample_file) =
           count_visible (targetFolder sample_normalizePath ?req sample_file @ js ''/'' @
                          safeTitle (title ?resp) @ js ''.md'')" by code_simp
  have 2: "linkLabel sample_runtime ?resp ?req = Inr (js ''foo'')" by code_simp
  have 3: "targetPath sample_normalizePath ?resp ?req sample_file = js ''notes/T1.md''"
    by code_simp
  have 4: "clipboardLink sample_runtime ?resp (selectedText ?req) = Inr (js ''[[T:1|foo]]'')"
    by code_simp
  have 5: "title ?resp \<noteq> targetPath sample_normalizePath ?resp ?req sample_file"
    using clipboard_link_is_not_the_inserted_link [OF 1 0] by blast
  show ?thesis
    using 1 2 3 4 5 by blast
qed

end
